theory Spec2Isabelle
  imports Main "HOL-Library.Sublist" "HOL-Library.Word"
begin

unbundle bit_operations_syntax

section \<open>Go values used by both components\<close>

text \<open>
  A byte slice is a list of bytes; an Isabelle \<open>char\<close> is one byte, so the payloads
  written to a log stream are \<open>string\<close>s. Random bytes that go through the hex
  encoder are 8-bit words, because the encoder shifts and masks them.
\<close>

type_synonym bytes = string

text \<open>
  Errors. \<open>errors.New(text)\<close> and \<open>fmt.Errorf\<close> without \<open>%w\<close> give an
  error that has a message and no cause (\<open>errorString\<close>); \<open>fmt.Errorf\<close> with a
  trailing \<open>%w\<close> gives an error whose message is the format's text followed by the
  cause's message, and whose \<open>Unwrap\<close> is the cause (\<open>wrapError\<close>).
\<close>

datatype go_error = errorString string | wrapError string go_error

fun Error :: "go_error \<Rightarrow> string" where
  "Error (errorString s) = s"
| "Error (wrapError msg err) = msg"

fun Unwrap :: "go_error \<Rightarrow> go_error option" where
  "Unwrap (errorString s) = None"
| "Unwrap (wrapError msg err) = Some err"

definition errors_New :: "string \<Rightarrow> go_error" where
  "errors_New text = errorString text"

text \<open>\<open>Errorf_w pre err\<close> is \<open>fmt.Errorf(pre + "%w", err)\<close>.\<close>

definition Errorf_w :: "string \<Rightarrow> go_error \<Rightarrow> go_error" where
  "Errorf_w pre err = wrapError (pre @ Error err) err"

text \<open>
  A panic ends the calling goroutine's normal flow: an explicit \<open>panic(v)\<close> with an
  error value, or one of the runtime's own (nil pointer dereference, slice index out of
  range).
\<close>

datatype panic = Panic go_error | NilDereference | IndexOutOfRange

text \<open>\<open>time.Duration\<close> and clock readings, in nanoseconds.\<close>

definition Nanosecond :: nat where "Nanosecond = 1"
definition Microsecond :: nat where "Microsecond = 1000 * Nanosecond"
definition Millisecond :: nat where "Millisecond = 1000 * Microsecond"
definition Second :: nat where "Second = 1000 * Millisecond"

text \<open>\<open>strings.Join(elems, sep)\<close>.\<close>

fun Join :: "string list \<Rightarrow> string \<Rightarrow> string" where
  "Join [] sep = []"
| "Join [x] sep = x"
| "Join (x # y # ys) sep = x @ sep @ Join (y # ys) sep"

text \<open>\<open>strings.Contains(s, substr)\<close> and \<open>strings.Count(s, substr)\<close> for a
  non-empty \<open>substr\<close> that cannot overlap itself.\<close>

fun Contains :: "string \<Rightarrow> string \<Rightarrow> bool" where
  "Contains [] substr = (substr = [])"
| "Contains (c # cs) substr = (prefix substr (c # cs) \<or> Contains cs substr)"


section \<open>LogMux and LogStream\<close>

text \<open>
  \<open>Stream\<close> allocates a \<open>LogStream\<close> and a closure \<open>w\<close> over two variables of its
  own, the buffer \<open>b\<close> and the timer handle \<open>t\<close>. The record below holds the struct's
  fields \<open>name\<close> and \<open>clr\<close> together with the closure's two captured variables:
  \<open>LogStream_b\<close> is the contents of \<open>b\<close>, and \<open>LogStream_t\<close> is \<open>t\<close>, with
  \<open>None\<close> for \<open>nil\<close> and \<open>Some d\<close> for a timer that \<open>time.AfterFunc\<close> has set
  to go off at clock reading \<open>d\<close>. The colour type is a parameter.
\<close>

record 'c LogStream =
  name :: string
  clr :: 'c
  LogStream_b :: bytes
  LogStream_t :: "nat option"

text \<open>
  The mux holds pointers to its streams in a map keyed by name. The map is the store of
  the stream objects here: a \<open>*LogStream\<close> handle is the name it is registered under,
  so an update through the map (\<open>refreshColors\<close>) and an update through the handle
  (\<open>Write\<close>) reach the same object. The writer \<open>w\<close> is the sequence of \<open>Write\<close>
  calls it has received, oldest first. The mutex \<open>mu\<close> has no field: each operation
  that locks it runs here as one step.
\<close>

record 'c LogMux =
  streams :: "string \<rightharpoonup> 'c LogStream"
  bufMs :: nat
  isDirty :: bool
  LogMux_w :: "bytes list"

definition NewLogMux :: "bytes list \<Rightarrow> 'c LogMux" where
  "NewLogMux w = \<lparr>streams = Map.empty, bufMs = Millisecond * 10, isDirty = False, LogMux_w = w\<rparr>"

text \<open>
  \<open>Stream\<close>. The first argument is the colour that \<open>colorful.FastHappyColor()\<close>
  draws. A registered name panics; otherwise the stream is stored, the mux is marked
  dirty and the handle is returned.
\<close>

definition Stream :: "'c \<Rightarrow> 'c LogMux \<Rightarrow> string \<Rightarrow> panic + (string \<times> 'c LogMux)" where
  "Stream FastHappyColor m nm =
     (let s = \<lparr>name = nm, clr = FastHappyColor, LogStream_b = [], LogStream_t = None\<rparr>
      in case streams m nm of
           Some old \<Rightarrow> Inl (Panic (errorString (''Stream '' @ nm @ '' already exists'')))
         | None \<Rightarrow> Inr (nm, m\<lparr>streams := (streams m)(nm \<mapsto> s), isDirty := True\<rparr>))"

text \<open>
  The closure \<open>w\<close> of the stream behind handle \<open>h\<close>, called at clock reading
  \<open>now\<close>: append \<open>p\<close> to the buffer; if no timer is set, set one to go off
  \<open>m.bufMs\<close> later; return \<open>(len(p), nil)\<close>. The result is \<open>None\<close> only for a
  handle that no \<open>Stream\<close> call returned.
\<close>

definition LogStream_w ::
  "nat \<Rightarrow> 'c LogMux \<Rightarrow> string \<Rightarrow> bytes \<Rightarrow> ((int \<times> go_error option) \<times> 'c LogMux) option" where
  "LogStream_w now m h p =
     (case streams m h of
        None \<Rightarrow> None
      | Some s \<Rightarrow>
          let s1 = s\<lparr>LogStream_b := LogStream_b s @ p\<rparr>;
              s2 = (if LogStream_t s1 = None then s1\<lparr>LogStream_t := Some (now + bufMs m)\<rparr> else s1)
          in Some ((int (length p), None), m\<lparr>streams := (streams m)(h \<mapsto> s2)\<rparr>))"

definition LogStream_Write ::
  "nat \<Rightarrow> 'c LogMux \<Rightarrow> string \<Rightarrow> bytes \<Rightarrow> ((int \<times> go_error option) \<times> 'c LogMux) option" where
  "LogStream_Write now m h p = LogStream_w now m h p"

text \<open>
  \<open>refreshColors\<close>. Two things come from outside the function and are parameters:
  \<open>FastHappyPalette\<close>, the library's palette generator (given the number of colours
  asked for, it returns the slice it generated), and \<open>keys\<close>, the order in which
  \<open>range m.streams\<close> visits the map, which the runtime chooses: a list of the map's
  keys without repetition. The loop body \<open>v.clr = pal[i]; i++\<close> writes through the
  pointer held in the map; an index outside the palette panics.
\<close>

fun range_streams ::
  "'c list \<Rightarrow> nat \<Rightarrow> string list \<Rightarrow> (string \<rightharpoonup> 'c LogStream) \<Rightarrow> panic + (string \<rightharpoonup> 'c LogStream)" where
  "range_streams pal i [] ss = Inr ss"
| "range_streams pal i (k # ks) ss =
     (case ss k of
        None \<Rightarrow> range_streams pal i ks ss
      | Some v \<Rightarrow>
          if i < length pal
          then range_streams pal (Suc i) ks (ss(k \<mapsto> v\<lparr>clr := pal ! i\<rparr>))
          else Inl IndexOutOfRange)"

definition refreshColors :: "(nat \<Rightarrow> 'c list) \<Rightarrow> string list \<Rightarrow> 'c LogMux \<Rightarrow> panic + 'c LogMux" where
  "refreshColors FastHappyPalette keys m =
     (if \<not> isDirty m then Inr m
      else
        let pal = FastHappyPalette (card (dom (streams m)))
        in case range_streams pal 0 keys (streams m) of
             Inl e \<Rightarrow> Inl e
           | Inr ss \<Rightarrow> Inr (m\<lparr>streams := ss, isDirty := False\<rparr>))"

subsection \<open>The write closure and the timer function as two threads\<close>

text \<open>
  \<open>time.AfterFunc\<close> runs its function in a goroutine of its own, so the function can
  run while a \<open>Write\<close> on the same stream is under way. Here each statement of the
  closure and of the timer function is one step, and a schedule chooses which thread
  steps next. Neither body takes a lock, so no step waits for the other thread.

  The writer is at rest (\<open>W_rest\<close>), or inside \<open>w(p)\<close> before \<open>b.Write(p)\<close>
  (\<open>W_append p\<close>), before the test \<open>t == nil\<close> (\<open>W_test p\<close>) or before
  \<open>return len(p), nil\<close> (\<open>W_return p\<close>). The timer goroutine is not running
  (\<open>F_rest\<close>), or before \<open>m.w.Write(b.Bytes())\<close> (\<open>F_write\<close>), before
  \<open>b.Reset()\<close> (\<open>F_reset\<close>) or before \<open>t = nil\<close> (\<open>F_clear\<close>).
\<close>

datatype writer_pc = W_rest | W_append bytes | W_test bytes | W_return bytes

datatype timer_pc = F_rest | F_write | F_reset | F_clear

record threads =
  thr_b :: bytes
  thr_t :: bool
  thr_w :: "bytes list"
  thr_writer :: writer_pc
  thr_timer :: timer_pc
  thr_returned :: "(int \<times> go_error option) list"

text \<open>
  \<open>thr_b\<close> is the buffer, \<open>thr_t\<close> says whether \<open>t\<close> is non-nil, \<open>thr_w\<close> is the
  mux's writer, and \<open>thr_returned\<close> collects what the \<open>Write\<close> calls returned. The
  actions: \<open>Call p\<close> enters \<open>w(p)\<close>; \<open>Writer\<close> runs the writer's next statement;
  \<open>Fire\<close> is the runtime starting the timer's function once the time of a set timer
  has come; \<open>Timer\<close> runs the function's next statement. An action that is not
  possible in a state gives \<open>None\<close>.
\<close>

datatype action = Call bytes | Writer | Fire | Timer

fun thread_step :: "action \<Rightarrow> threads \<Rightarrow> threads option" where
  "thread_step (Call p) c =
     (case thr_writer c of W_rest \<Rightarrow> Some (c\<lparr>thr_writer := W_append p\<rparr>) | _ \<Rightarrow> None)"
| "thread_step Writer c =
     (case thr_writer c of
        W_rest \<Rightarrow> None
      | W_append p \<Rightarrow> Some (c\<lparr>thr_b := thr_b c @ p, thr_writer := W_test p\<rparr>)
      | W_test p \<Rightarrow> Some (if \<not> thr_t c then c\<lparr>thr_t := True, thr_writer := W_return p\<rparr>
                          else c\<lparr>thr_writer := W_return p\<rparr>)
      | W_return p \<Rightarrow> Some (c\<lparr>thr_writer := W_rest,
                              thr_returned := thr_returned c @ [(int (length p), None)]\<rparr>))"
| "thread_step Fire c =
     (if thr_t c \<and> thr_timer c = F_rest then Some (c\<lparr>thr_timer := F_write\<rparr>) else None)"
| "thread_step Timer c =
     (case thr_timer c of
        F_rest \<Rightarrow> None
      | F_write \<Rightarrow> Some (c\<lparr>thr_w := thr_w c @ [thr_b c], thr_timer := F_reset\<rparr>)
      | F_reset \<Rightarrow> Some (c\<lparr>thr_b := [], thr_timer := F_clear\<rparr>)
      | F_clear \<Rightarrow> Some (c\<lparr>thr_t := False, thr_timer := F_rest\<rparr>))"

fun schedule :: "action list \<Rightarrow> threads \<Rightarrow> threads option" where
  "schedule [] c = Some c"
| "schedule (a # as) c = (case thread_step a c of None \<Rightarrow> None | Some c' \<Rightarrow> schedule as c')"

text \<open>A new stream: empty buffer, no timer, both threads at rest.\<close>

definition new_threads :: threads where
  "new_threads = \<lparr>thr_b = [], thr_t = False, thr_w = [], thr_writer = W_rest,
                   thr_timer = F_rest, thr_returned = []\<rparr>"

text \<open>
  Both threads are between their first and last access to \<open>b\<close> and \<open>t\<close>: the writer
  has appended and not yet tested \<open>t\<close>, the timer function has written the buffer out
  and not yet reset it.
\<close>

definition both_inside :: "threads \<Rightarrow> bool" where
  "both_inside c = ((case thr_writer c of W_test p \<Rightarrow> True | _ \<Rightarrow> False) \<and> thr_timer c = F_reset)"

section \<open>Machine\<close>

text \<open>
  \<open>MachineConfig\<close> and \<open>Image\<close> are declared elsewhere in the package. Of the first,
  \<open>Start\<close> reads the fields \<open>Memory\<close> (a string) and \<open>Ports\<close> (a slice of strings);
  the second is only carried. A pointer is an \<open>option\<close>, \<open>None\<close> for \<open>nil\<close>. A
  \<open>net.Conn\<close> is identified by a number.
\<close>

record MachineConfig =
  Memory :: string
  Ports :: "string list"

typedecl Image

type_synonym net_Conn = nat

record Machine =
  ID :: string
  Name :: string
  Conf :: "MachineConfig option"
  Img :: "Image option"
  ImgPath :: string
  addr :: string
  monAddr :: string
  conn :: "net_Conn option"

record StartOptions =
  imdsPort :: int

subsection \<open>generateMachineID and NewMachine\<close>

type_synonym byte = "8 word"

text \<open>
  A reader is the bytes it can still supply and the error it reports after them.
  \<open>io.ReadFull\<close> on a buffer of \<open>n\<close> bytes fills it, or returns the reader's
  error; when the reader reports \<open>io.EOF\<close> after some but not all of the bytes,
  the error is \<open>io.ErrUnexpectedEOF\<close>.
\<close>

definition io_EOF :: go_error where
  "io_EOF = errorString ''EOF''"

definition io_ErrUnexpectedEOF :: go_error where
  "io_ErrUnexpectedEOF = errorString ''unexpected EOF''"

definition ReadFull :: "byte list \<times> go_error \<Rightarrow> nat \<Rightarrow> go_error + byte list" where
  "ReadFull r n =
     (if n \<le> length (fst r) then Inr (take n (fst r))
      else if fst r \<noteq> [] \<and> snd r = io_EOF then Inl io_ErrUnexpectedEOF
      else Inl (snd r))"

definition hextable :: string where
  "hextable = ''0123456789abcdef''"

text \<open>\<open>hex.EncodeToString\<close>: for each byte \<open>v\<close>, \<open>hextable[v>>4]\<close> and
  \<open>hextable[v&0x0f]\<close>.\<close>

fun EncodeToString :: "byte list \<Rightarrow> string" where
  "EncodeToString [] = []"
| "EncodeToString (v # src) =
     hextable ! unat (drop_bit 4 v) # hextable ! unat (v AND 0x0f) # EncodeToString src"

definition generateMachineID :: "byte list \<times> go_error \<Rightarrow> panic + string" where
  "generateMachineID r =
     (case ReadFull r 32 of
        Inl err \<Rightarrow> Inl (Panic err)
      | Inr b \<Rightarrow> Inr (EncodeToString b))"

definition NewMachine ::
  "byte list \<times> go_error \<Rightarrow> string \<Rightarrow> MachineConfig option \<Rightarrow> Image option \<Rightarrow> string \<Rightarrow> panic + Machine" where
  "NewMachine r nm conf img imgPath =
     (case generateMachineID r of
        Inl p \<Rightarrow> Inl p
      | Inr ident \<Rightarrow> Inr \<lparr>ID = ident, Name = nm, Conf = conf, Img = img, ImgPath = imgPath,
                      addr = [], monAddr = [], conn = None\<rparr>)"

subsection \<open>Start\<close>

text \<open>
  What \<open>Start\<close> asks of the operating system and of the \<open>xdg\<close> library:
  \<open>exec.LookPath\<close>, \<open>xdg.RuntimeFile\<close> and \<open>cmd.Start\<close> for a command built from
  a binary and its arguments. Each either fails with an error or succeeds.
\<close>

record os_env =
  exec_LookPath :: "string \<Rightarrow> go_error + string"
  xdg_RuntimeFile :: "string \<Rightarrow> go_error + string"
  cmd_Start :: "string \<Rightarrow> string list \<Rightarrow> go_error option"

text \<open>The verb \<open>%d\<close> of \<open>fmt.Sprintf\<close> on an \<open>int\<close>.\<close>

function nat_dec :: "nat \<Rightarrow> string" where
  "nat_dec n = (if n < 10 then [''0123456789'' ! n] else nat_dec (n div 10) @ [''0123456789'' ! (n mod 10)])"
  by pat_completeness auto
termination
  by (relation "measure id") auto

declare nat_dec.simps [simp del]

definition Sprint_d :: "int \<Rightarrow> string" where
  "Sprint_d i = (if i < 0 then CHR ''-'' # nat_dec (nat (- i)) else nat_dec (nat i))"

text \<open>
  Lines 57 to 77 of \<open>Start\<close>: the three socket paths, in the order primary, tty,
  monitor. \<open>m.addr\<close> is assigned as soon as the first path is known and
  \<open>m.monAddr\<close> after the third, so a failure in between leaves \<open>m.addr\<close> set.
\<close>

definition Start_sockets :: "os_env \<Rightarrow> Machine \<Rightarrow> (go_error + string \<times> string \<times> string) \<times> Machine" where
  "Start_sockets env m =
     (case xdg_RuntimeFile env (''fog/'' @ ID m @ ''.sock'') of
        Inl err \<Rightarrow> (Inl (Errorf_w ''generating socket file path: '' err), m)
      | Inr adr \<Rightarrow>
          (case xdg_RuntimeFile env (''fog/'' @ ID m @ ''_tty.sock'') of
             Inl err \<Rightarrow> (Inl (Errorf_w ''generating ttysocket file path: '' err), m\<lparr>addr := adr\<rparr>)
           | Inr ttyAddr \<Rightarrow>
               (case xdg_RuntimeFile env (''fog/'' @ ID m @ ''_monitor.sock'') of
                  Inl err \<Rightarrow>
                    (Inl (Errorf_w ''generating monitor socket file path: '' err), m\<lparr>addr := adr\<rparr>)
                | Inr mon \<Rightarrow> (Inr (adr, ttyAddr, mon), m\<lparr>addr := adr, monAddr := mon\<rparr>))))"

text \<open>Lines 79 to 129 of \<open>Start\<close>: the metadata URL, the port forwards and the
  argument list.\<close>

definition Start_args ::
  "Machine \<Rightarrow> MachineConfig \<Rightarrow> StartOptions \<Rightarrow> string \<Rightarrow> string \<Rightarrow> string \<Rightarrow> string list" where
  "Start_args m conf opts adr ttyAddr mon =
     (let dsUrl = ''http://10.0.2.2:'' @ Sprint_d (imdsPort opts) @ ''/'' @ ID m @ ''/'';
          fwds = (if length (Ports conf) > 0 then '',hostfwd='' @ Join (Ports conf) '','' else [])
      in [''-machine'', ''accel=kvm:tcg'',
          ''-cpu'', ''host'',
          ''-m'', Memory conf,
          ''-nographic'', ''-vga'', ''none'',
          ''-hda'', ImgPath m, ''-snapshot'',
          ''-net'', ''nic'',
          ''-net'', ''user'' @ fwds,
          ''-chardev'', ''socket,id=serial,path='' @ adr @ '',server,nowait'',
          ''-serial'', ''chardev:serial'',
          ''-chardev'', ''socket,id=tty,path='' @ ttyAddr @ '',server,nowait'',
          ''-serial'', ''chardev:tty'',
          ''-chardev'', ''socket,id=monitor,path='' @ mon @ '',server,nowait'',
          ''-monitor'', ''chardev:monitor'',
          ''-smbios'', ''type=1,serial=ds=nocloud-net;s='' @ dsUrl])"

text \<open>
  \<open>Start\<close>. The result is a panic (a nil \<open>opts\<close> or \<open>m.Conf\<close>), or the returned
  error (\<open>None\<close> for \<open>nil\<close>), the machine as \<open>Start\<close> leaves it, and the command
  that \<open>exec.Command(bin, args...)\<close> built, when \<open>Start\<close> got that far. The context
  argument is not used by the body, and the debug log line is left out.
\<close>

definition Start ::
  "os_env \<Rightarrow> Machine \<Rightarrow> StartOptions option \<Rightarrow>
     panic + (go_error option \<times> Machine \<times> (string \<times> string list) option)" where
  "Start env m opts =
     (case exec_LookPath env ''qemu-system-x86_64'' of
        Inl err \<Rightarrow> Inr (Some (Errorf_w ''finding qemu binary: '' err), m, None)
      | Inr bin \<Rightarrow>
          (case Start_sockets env m of
             (Inl err, m1) \<Rightarrow> Inr (Some err, m1, None)
           | (Inr (adr, ttyAddr, mon), m1) \<Rightarrow>
               (case opts of
                  None \<Rightarrow> Inl NilDereference
                | Some opt \<Rightarrow>
                    (case Conf m1 of
                       None \<Rightarrow> Inl NilDereference
                     | Some conf \<Rightarrow>
                         let args = Start_args m1 conf opt adr ttyAddr mon
                         in (case cmd_Start env bin args of
                               Some err \<Rightarrow>
                                 Inr (Some (Errorf_w ''starting machine: '' err), m1, Some (bin, args))
                             | None \<Rightarrow> Inr (None, m1, Some (bin, args)))))))"

text \<open>The texts that \<open>Start\<close> puts in front of a cause, one for each step that can fail.\<close>

definition Start_steps :: "string list" where
  "Start_steps = [''finding qemu binary: '', ''generating socket file path: '',
                  ''generating ttysocket file path: '', ''generating monitor socket file path: '',
                  ''starting machine: '']"

subsection \<open>openConn and Conn\<close>

text \<open>
  \<open>net_Dial i network address\<close> is the outcome of the \<open>i\<close>-th call of \<open>net.Dial\<close>
  that \<open>openConn\<close> makes (counted from 0): the listener may appear between two calls.
  The calls and the sleeps are recorded in order.
\<close>

datatype effect = Dial string string | Sleep nat

function openConn_loop ::
  "(nat \<Rightarrow> string \<Rightarrow> string \<Rightarrow> go_error + net_Conn) \<Rightarrow> Machine \<Rightarrow> nat \<Rightarrow> effect list \<Rightarrow>
     (net_Conn option \<times> go_error option) \<times> Machine \<times> effect list" where
  "openConn_loop net_Dial m i tr =
     (if i < 3 then
        (case net_Dial i ''unix'' (addr m) of
           Inr c \<Rightarrow> ((Some c, None), m\<lparr>conn := Some c\<rparr>, tr @ [Dial ''unix'' (addr m)])
         | Inl err \<Rightarrow>
             openConn_loop net_Dial m (i + 1) (tr @ [Dial ''unix'' (addr m), Sleep Second]))
      else ((None, Some (errors_New ''failed to open connection'')), m, tr))"
  by pat_completeness auto
termination
  by (relation "measure (\<lambda>(net_Dial, m, i, tr). 3 - i)") auto

declare openConn_loop.simps [simp del]

definition openConn ::
  "(nat \<Rightarrow> string \<Rightarrow> string \<Rightarrow> go_error + net_Conn) \<Rightarrow> Machine \<Rightarrow>
     (net_Conn option \<times> go_error option) \<times> Machine \<times> effect list" where
  "openConn net_Dial m =
     (case conn m of
        Some c \<Rightarrow> ((Some c, None), m, [])
      | None \<Rightarrow> openConn_loop net_Dial m 0 [])"

definition Conn ::
  "(nat \<Rightarrow> string \<Rightarrow> string \<Rightarrow> go_error + net_Conn) \<Rightarrow> Machine \<Rightarrow>
     (net_Conn option \<times> go_error option) \<times> Machine \<times> effect list" where
  "Conn net_Dial m =
     (case openConn net_Dial m of
        ((c, Some err), m', tr) \<Rightarrow> ((None, Some err), m', tr)
      | ((c, None), m', tr) \<Rightarrow> ((c, None), m', tr))"

fun is_Dial :: "effect \<Rightarrow> bool" where
  "is_Dial (Dial network address) = True"
| "is_Dial (Sleep d) = False"


section \<open>Registration\<close>

lemma Stream_registered:
  "streams m nm = Some old \<Longrightarrow>
   Stream c m nm = Inl (Panic (errorString (''Stream '' @ nm @ '' already exists'')))"
  by (simp add: Stream_def)

lemma Stream_fresh:
  "streams m nm = None \<Longrightarrow>
   Stream c m nm =
     Inr (nm, m\<lparr>streams := (streams m)(nm \<mapsto> \<lparr>name = nm, clr = c, LogStream_b = [], LogStream_t = None\<rparr>),
               isDirty := True\<rparr>)"
  by (simp add: Stream_def)

text \<open>
  Claim C3. A call of \<open>Stream\<close> with a name that is already registered panics (it
  returns neither a handle nor an error value); a call with a name that is not registered
  returns a handle to a new stream stored under that name, and any later call with the
  same name on the resulting mux panics.
\<close>

theorem Stream_duplicate_panics:
  "(nm \<in> dom (streams m) \<longrightarrow>
      Stream c m nm = Inl (Panic (errorString (''Stream '' @ nm @ '' already exists''))))
   \<and> (nm \<notin> dom (streams m) \<longrightarrow>
      (\<exists>h m'. Stream c m nm = Inr (h, m')
         \<and> streams m' h = Some \<lparr>name = nm, clr = c, LogStream_b = [], LogStream_t = None\<rparr>
         \<and> streams m h = None
         \<and> (\<forall>c'. Stream c' m' nm = Inl (Panic (errorString (''Stream '' @ nm @ '' already exists''))))))"
proof (intro conjI impI)
  assume "nm \<in> dom (streams m)"
  then obtain old where "streams m nm = Some old" by blast
  then show "Stream c m nm = Inl (Panic (errorString (''Stream '' @ nm @ '' already exists'')))"
    by (rule Stream_registered)
next
  assume "nm \<notin> dom (streams m)"
  then have fresh: "streams m nm = None" by blast
  let ?s = "\<lparr>name = nm, clr = c, LogStream_b = [], LogStream_t = None\<rparr>"
  let ?m' = "m\<lparr>streams := (streams m)(nm \<mapsto> ?s), isDirty := True\<rparr>"
  have "Stream c m nm = Inr (nm, ?m')" using fresh by (rule Stream_fresh)
  moreover have "streams ?m' nm = Some ?s" by simp
  moreover have "\<forall>c'. Stream c' ?m' nm = Inl (Panic (errorString (''Stream '' @ nm @ '' already exists'')))"
    by (simp add: Stream_def)
  ultimately show "\<exists>h m'. Stream c m nm = Inr (h, m')
         \<and> streams m' h = Some ?s \<and> streams m h = None
         \<and> (\<forall>c'. Stream c' m' nm = Inl (Panic (errorString (''Stream '' @ nm @ '' already exists''))))"
    using fresh by blast
qed

theorem Stream_duplicate_panics_witness:
  "Stream (1::nat) (NewLogMux []) ''vm'' =
     Inr (''vm'', \<lparr>streams = [''vm'' \<mapsto> \<lparr>name = ''vm'', clr = 1, LogStream_b = [], LogStream_t = None\<rparr>],
                  bufMs = 10000000, isDirty = True, LogMux_w = []\<rparr>)
   \<and> Stream (2::nat) \<lparr>streams = [''vm'' \<mapsto> \<lparr>name = ''vm'', clr = 1, LogStream_b = [], LogStream_t = None\<rparr>],
                  bufMs = 10000000, isDirty = True, LogMux_w = []\<rparr> ''vm''
       = Inl (Panic (errorString ''Stream vm already exists''))"
proof -
  let ?m1 = "\<lparr>streams = [''vm'' \<mapsto> \<lparr>name = ''vm'', clr = 1::nat, LogStream_b = [], LogStream_t = None\<rparr>],
                  bufMs = 10000000, isDirty = True, LogMux_w = []\<rparr>"
  have a: "''vm'' \<notin> dom (streams (NewLogMux [] :: nat LogMux))"
    by (simp add: NewLogMux_def)
  have b: "''vm'' \<in> dom (streams ?m1)" by simp
  have "Stream (1::nat) (NewLogMux []) ''vm'' = Inr (''vm'', ?m1)"
    using a Stream_duplicate_panics [of "''vm''" "NewLogMux []" "1::nat"]
    by (auto simp: NewLogMux_def Millisecond_def Microsecond_def Nanosecond_def Stream_def)
  moreover have "Stream (2::nat) ?m1 ''vm'' = Inl (Panic (errorString ''Stream vm already exists''))"
    using b Stream_duplicate_panics [of "''vm''" ?m1 "2::nat"] by simp
  ultimately show ?thesis by simp
qed

section \<open>Writing\<close>

text \<open>
  Claim C9. For every byte slice \<open>p\<close>, \<open>Write(p)\<close> on a registered stream returns
  \<open>(len(p), nil)\<close>, whatever the stream's buffer and timer and the mux's writer hold.
\<close>

theorem LogStream_Write_full_count:
  "streams m h = Some s \<Longrightarrow>
   \<exists>m'. LogStream_Write now m h p = Some ((int (length p), None), m')"
  by (simp add: LogStream_Write_def LogStream_w_def Let_def)

theorem LogStream_Write_full_count_witness:
  "\<exists>m'. LogStream_Write 7
       \<lparr>streams = [''vm'' \<mapsto> \<lparr>name = ''vm'', clr = 0::nat, LogStream_b = ''xy'', LogStream_t = Some 3\<rparr>],
          bufMs = 10000000, isDirty = False, LogMux_w = [''old'']\<rparr> ''vm'' ''abc''
     = Some ((3, None), m')"
proof -
  have "[''vm'' \<mapsto> \<lparr>name = ''vm'', clr = 0::nat, LogStream_b = ''xy'', LogStream_t = Some 3\<rparr>] ''vm''
          = Some \<lparr>name = ''vm'', clr = 0::nat, LogStream_b = ''xy'', LogStream_t = Some 3\<rparr>" by simp
  then have "streams \<lparr>streams = [''vm'' \<mapsto> \<lparr>name = ''vm'', clr = 0::nat, LogStream_b = ''xy'', LogStream_t = Some 3\<rparr>],
          bufMs = 10000000, isDirty = False, LogMux_w = [''old'']\<rparr> ''vm''
          = Some \<lparr>name = ''vm'', clr = 0::nat, LogStream_b = ''xy'', LogStream_t = Some 3\<rparr>" by simp
  from LogStream_Write_full_count [OF this, of 7 "''abc''"] show ?thesis by simp
qed

section \<open>Colours\<close>

lemma range_streams_assigns:
  "distinct ks \<Longrightarrow> set ks \<subseteq> dom ss \<Longrightarrow> i + length ks \<le> length pal \<Longrightarrow>
   \<exists>ss'. range_streams pal i ks ss = Inr ss'
      \<and> dom ss' = dom ss
      \<and> (\<forall>k. k \<notin> set ks \<longrightarrow> ss' k = ss k)
      \<and> (\<forall>j < length ks. \<exists>v. ss (ks ! j) = Some v \<and> ss' (ks ! j) = Some (v\<lparr>clr := pal ! (i + j)\<rparr>))"
proof (induction ks arbitrary: i ss)
  case Nil
  then show ?case by simp
next
  case (Cons k ks)
  from Cons.prems obtain v where v: "ss k = Some v" by auto
  from Cons.prems have i: "i < length pal" by simp
  let ?ss1 = "ss(k \<mapsto> v\<lparr>clr := pal ! i\<rparr>)"
  have d: "distinct ks" and notin: "k \<notin> set ks" using Cons.prems(1) by simp_all
  have sub: "set ks \<subseteq> dom ?ss1" using Cons.prems(2) by auto
  have len: "Suc i + length ks \<le> length pal" using Cons.prems(3) by simp
  obtain ss' where run: "range_streams pal (Suc i) ks ?ss1 = Inr ss'"
    and dom': "dom ss' = dom ?ss1"
    and other: "\<forall>k'. k' \<notin> set ks \<longrightarrow> ss' k' = ?ss1 k'"
    and each: "\<forall>j < length ks. \<exists>w. ?ss1 (ks ! j) = Some w \<and> ss' (ks ! j) = Some (w\<lparr>clr := pal ! (Suc i + j)\<rparr>)"
    using Cons.IH [OF d sub len] by blast
  have r: "range_streams pal i (k # ks) ss = Inr ss'" using v i run by simp
  have dm: "dom ss' = dom ss" using dom' v by auto
  have ot: "\<forall>k'. k' \<notin> set (k # ks) \<longrightarrow> ss' k' = ss k'" using other by simp
  have ea: "\<forall>j < length (k # ks). \<exists>w. ss ((k # ks) ! j) = Some w
              \<and> ss' ((k # ks) ! j) = Some (w\<lparr>clr := pal ! (i + j)\<rparr>)"
  proof (intro allI impI)
    fix j assume j: "j < length (k # ks)"
    show "\<exists>w. ss ((k # ks) ! j) = Some w \<and> ss' ((k # ks) ! j) = Some (w\<lparr>clr := pal ! (i + j)\<rparr>)"
    proof (cases j)
      case 0
      have "ss' k = ?ss1 k" using other notin by blast
      then show ?thesis using 0 v by simp
    next
      case (Suc j')
      then have j': "j' < length ks" using j by simp
      then have ne: "ks ! j' \<noteq> k" using notin nth_mem by metis
      from each j' obtain w where w: "?ss1 (ks ! j') = Some w"
        "ss' (ks ! j') = Some (w\<lparr>clr := pal ! (Suc i + j')\<rparr>)" by blast
      from w(1) ne have "ss (ks ! j') = Some w" by simp
      then show ?thesis using w(2) Suc by simp
    qed
  qed
  from r dm ot ea show ?case by blast
qed

text \<open>
  Claim C5. Let the mux hold \<open>N\<close> streams, let \<open>keys\<close> be the order in which the
  loop visits them, and let the palette generator return \<open>N\<close> colours when asked for
  \<open>N\<close>. With the dirty flag set, \<open>refreshColors\<close> asks for a palette of exactly
  \<open>N\<close> colours, gives the stream visited \<open>i\<close>-th the \<open>i\<close>-th colour of it (so
  every stream's colour is one of the palette and nothing else of a stream changes), and
  clears the flag. With the flag clear it returns the mux as it is. Registering a stream
  sets the new stream's colour and leaves every stream under another name as it was.
\<close>

theorem refreshColors_palette:
  assumes "distinct keys" and "set keys = dom (streams m)"
    and "length (FastHappyPalette (card (dom (streams m)))) = card (dom (streams m))"
  shows "(isDirty m \<longrightarrow>
            (\<exists>m'. refreshColors FastHappyPalette keys m = Inr m'
               \<and> \<not> isDirty m'
               \<and> dom (streams m') = dom (streams m)
               \<and> (\<forall>k s'. streams m' k = Some s' \<longrightarrow>
                     clr s' \<in> set (FastHappyPalette (card (dom (streams m))))
                     \<and> (\<exists>s. streams m k = Some s \<and> s' = s\<lparr>clr := clr s'\<rparr>))
               \<and> map (\<lambda>k. map_option clr (streams m' k)) keys
                   = map Some (FastHappyPalette (card (dom (streams m))))
               \<and> bufMs m' = bufMs m \<and> LogMux_w m' = LogMux_w m))
       \<and> (\<not> isDirty m \<longrightarrow> refreshColors FastHappyPalette keys m = Inr m)
       \<and> (\<forall>c nm h m'. Stream c m nm = Inr (h, m') \<longrightarrow>
            map_option clr (streams m' nm) = Some c
            \<and> (\<forall>k. k \<noteq> nm \<longrightarrow> streams m' k = streams m k))"
proof (intro conjI impI allI)
  assume dirty: "isDirty m"
  let ?n = "card (dom (streams m))"
  let ?pal = "FastHappyPalette ?n"
  have n: "length keys = ?n" using assms(1,2) distinct_card by fastforce
  have sub: "set keys \<subseteq> dom (streams m)" using assms(2) by simp
  have len: "0 + length keys \<le> length ?pal" using n assms(3) by simp
  obtain ss' where run: "range_streams ?pal 0 keys (streams m) = Inr ss'"
    and dom': "dom ss' = dom (streams m)"
    and each: "\<forall>j < length keys. \<exists>v. streams m (keys ! j) = Some v
                  \<and> ss' (keys ! j) = Some (v\<lparr>clr := ?pal ! (0 + j)\<rparr>)"
    using range_streams_assigns [OF assms(1) sub len] by blast
  let ?m' = "m\<lparr>streams := ss', isDirty := False\<rparr>"
  have res: "refreshColors FastHappyPalette keys m = Inr ?m'"
    using dirty run by (simp add: refreshColors_def)
  have colours: "\<forall>k s'. streams ?m' k = Some s' \<longrightarrow>
                     clr s' \<in> set ?pal \<and> (\<exists>s. streams m k = Some s \<and> s' = s\<lparr>clr := clr s'\<rparr>)"
  proof (intro allI impI)
    fix k s' assume "streams ?m' k = Some s'"
    then have s': "ss' k = Some s'" by simp
    then have "k \<in> set keys" using dom' assms(2) by auto
    then obtain j where j: "j < length keys" "keys ! j = k" by (auto simp: in_set_conv_nth)
    from each j obtain v where v: "streams m k = Some v" "ss' k = Some (v\<lparr>clr := ?pal ! j\<rparr>)"
      by auto
    from v(2) s' have eq: "s' = v\<lparr>clr := ?pal ! j\<rparr>" by simp
    have "j < length ?pal" using j(1) n assms(3) by simp
    then have "?pal ! j \<in> set ?pal" by simp
    then show "clr s' \<in> set ?pal \<and> (\<exists>s. streams m k = Some s \<and> s' = s\<lparr>clr := clr s'\<rparr>)"
      using eq v(1) by simp
  qed
  have listed: "map (\<lambda>k. map_option clr (streams ?m' k)) keys = map Some ?pal"
  proof (rule nth_equalityI)
    show "length (map (\<lambda>k. map_option clr (streams ?m' k)) keys) = length (map Some ?pal)"
      using n assms(3) by simp
  next
    fix j assume "j < length (map (\<lambda>k. map_option clr (streams ?m' k)) keys)"
    then have j: "j < length keys" by simp
    from each j obtain v where "ss' (keys ! j) = Some (v\<lparr>clr := ?pal ! j\<rparr>)" by auto
    then show "map (\<lambda>k. map_option clr (streams ?m' k)) keys ! j = map Some ?pal ! j"
      using j n assms(3) by simp
  qed
  have rest: "\<not> isDirty ?m'" "dom (streams ?m') = dom (streams m)"
    "bufMs ?m' = bufMs m" "LogMux_w ?m' = LogMux_w m"
    using dom' by simp_all
  from res colours listed rest
  show "\<exists>m'. refreshColors FastHappyPalette keys m = Inr m'
               \<and> \<not> isDirty m'
               \<and> dom (streams m') = dom (streams m)
               \<and> (\<forall>k s'. streams m' k = Some s' \<longrightarrow>
                     clr s' \<in> set (FastHappyPalette (card (dom (streams m))))
                     \<and> (\<exists>s. streams m k = Some s \<and> s' = s\<lparr>clr := clr s'\<rparr>))
               \<and> map (\<lambda>k. map_option clr (streams m' k)) keys
                   = map Some (FastHappyPalette (card (dom (streams m))))
               \<and> bufMs m' = bufMs m \<and> LogMux_w m' = LogMux_w m"
    by blast
next
  assume "\<not> isDirty m"
  then show "refreshColors FastHappyPalette keys m = Inr m" by (simp add: refreshColors_def)
next
  fix c nm h m'
  assume "Stream c m nm = Inr (h, m')"
  then have m': "m' = m\<lparr>streams := (streams m)(nm \<mapsto> \<lparr>name = nm, clr = c, LogStream_b = [], LogStream_t = None\<rparr>),
               isDirty := True\<rparr>"
    by (auto simp: Stream_def split: option.splits)
  show "map_option clr (streams m' nm) = Some c" unfolding m' by simp
  fix k assume "k \<noteq> nm"
  then show "streams m' k = streams m k" unfolding m' by simp
qed

theorem refreshColors_palette_witness:
  "(\<exists>m'. refreshColors (\<lambda>n. map (\<lambda>i. 10 * i) [0..<n]) [''b'', ''a'']
        \<lparr>streams = [''a'' \<mapsto> \<lparr>name = ''a'', clr = 3::nat, LogStream_b = [], LogStream_t = None\<rparr>,
                    ''b'' \<mapsto> \<lparr>name = ''b'', clr = 4, LogStream_b = ''x'', LogStream_t = Some 9\<rparr>],
           bufMs = 10000000, isDirty = True, LogMux_w = []\<rparr> = Inr m'
      \<and> \<not> isDirty m'
      \<and> map (\<lambda>k. map_option clr (streams m' k)) [''b'', ''a''] = [Some 0, Some 10])
   \<and> refreshColors (\<lambda>n. map (\<lambda>i. 10 * i) [0..<n]) [''b'', ''a'']
        \<lparr>streams = [''a'' \<mapsto> \<lparr>name = ''a'', clr = 3::nat, LogStream_b = [], LogStream_t = None\<rparr>,
                    ''b'' \<mapsto> \<lparr>name = ''b'', clr = 4, LogStream_b = ''x'', LogStream_t = Some 9\<rparr>],
           bufMs = 10000000, isDirty = False, LogMux_w = []\<rparr>
       = Inr \<lparr>streams = [''a'' \<mapsto> \<lparr>name = ''a'', clr = 3::nat, LogStream_b = [], LogStream_t = None\<rparr>,
                    ''b'' \<mapsto> \<lparr>name = ''b'', clr = 4, LogStream_b = ''x'', LogStream_t = Some 9\<rparr>],
           bufMs = 10000000, isDirty = False, LogMux_w = []\<rparr>
   \<and> (\<exists>h m'. Stream 5
        \<lparr>streams = [''a'' \<mapsto> \<lparr>name = ''a'', clr = 3::nat, LogStream_b = [], LogStream_t = None\<rparr>,
                    ''b'' \<mapsto> \<lparr>name = ''b'', clr = 4, LogStream_b = ''x'', LogStream_t = Some 9\<rparr>],
           bufMs = 10000000, isDirty = False, LogMux_w = []\<rparr> ''c'' = Inr (h, m')
      \<and> map_option clr (streams m' ''c'') = Some 5
      \<and> map_option clr (streams m' ''a'') = Some 3
      \<and> map_option clr (streams m' ''b'') = Some 4)"
proof -
  let ?gen = "\<lambda>n::nat. map (\<lambda>i. 10 * i) [0..<n]"
  let ?ss = "[''a'' \<mapsto> \<lparr>name = ''a'', clr = 3::nat, LogStream_b = [], LogStream_t = None\<rparr>,
              ''b'' \<mapsto> \<lparr>name = ''b'', clr = 4, LogStream_b = ''x'', LogStream_t = Some 9\<rparr>]"
  let ?M = "\<lparr>streams = ?ss, bufMs = 10000000, isDirty = True, LogMux_w = []\<rparr>"
  let ?C = "\<lparr>streams = ?ss, bufMs = 10000000, isDirty = False, LogMux_w = []\<rparr>"
  have d: "distinct [''b'', ''a'']" by simp
  have k: "set [''b'', ''a''] = dom (streams ?M)" by auto
  have kC: "set [''b'', ''a''] = dom (streams ?C)" by auto
  have c: "card (dom (streams ?M)) = 2" by simp
  have p: "length (?gen (card (dom (streams ?M)))) = card (dom (streams ?M))" by simp
  have pC: "length (?gen (card (dom (streams ?C)))) = card (dom (streams ?C))" by simp
  have dirty: "isDirty ?M" by simp
  have clean: "\<not> isDirty ?C" by simp
  have g: "?gen (card (dom (streams ?M))) = [0, 10]" unfolding c by (simp add: upt_rec)
  note tM = refreshColors_palette [of "[''b'', ''a'']" ?M ?gen, OF d k p]
  note tC = refreshColors_palette [of "[''b'', ''a'']" ?C ?gen, OF d kC pC]
  from tM dirty
  obtain m' where "refreshColors ?gen [''b'', ''a''] ?M = Inr m'" "\<not> isDirty m'"
    "map (\<lambda>k. map_option clr (streams m' k)) [''b'', ''a''] = map Some (?gen (card (dom (streams ?M))))"
    by blast
  then have one: "\<exists>m'. refreshColors ?gen [''b'', ''a''] ?M = Inr m' \<and> \<not> isDirty m'
      \<and> map (\<lambda>k. map_option clr (streams m' k)) [''b'', ''a''] = [Some 0, Some 10]"
    unfolding g by simp
  have two: "refreshColors ?gen [''b'', ''a''] ?C = Inr ?C"
    by (rule tC [THEN conjunct2, THEN conjunct1, THEN mp, OF clean])
  obtain h m2 where reg: "Stream (5::nat) ?C ''c'' = Inr (h, m2)" by (simp add: Stream_def)
  have new: "map_option clr (streams m2 ''c'') = Some 5"
    and old: "\<forall>k. k \<noteq> ''c'' \<longrightarrow> streams m2 k = streams ?C k"
    using tC [THEN conjunct2, THEN conjunct2, rule_format, OF reg] by simp_all
  have "streams m2 ''a'' = streams ?C ''a''" "streams m2 ''b'' = streams ?C ''b''"
    using old by simp_all
  then have kept: "map_option clr (streams m2 ''a'') = Some 3" "map_option clr (streams m2 ''b'') = Some 4"
    by simp_all
  from reg new kept have three: "\<exists>h m'. Stream 5 ?C ''c'' = Inr (h, m')
      \<and> map_option clr (streams m' ''c'') = Some 5
      \<and> map_option clr (streams m' ''a'') = Some 3
      \<and> map_option clr (streams m' ''b'') = Some 4"
    by (intro exI conjI)
  from one two three show ?thesis by (intro conjI)
qed

section \<open>The connection\<close>

lemma openConn_loop_done: "openConn_loop net_Dial m 3 tr = ((None, Some (errors_New ''failed to open connection'')), m, tr)"
  by (simp add: openConn_loop.simps)

lemma openConn_loop_fail:
  "i < 3 \<Longrightarrow> net_Dial i ''unix'' (addr m) = Inl e \<Longrightarrow>
   openConn_loop net_Dial m i tr
     = openConn_loop net_Dial m (Suc i) (tr @ [Dial ''unix'' (addr m), Sleep Second])"
  by (subst openConn_loop.simps) simp

lemma openConn_loop_success:
  "i < 3 \<Longrightarrow> net_Dial i ''unix'' (addr m) = Inr c \<Longrightarrow>
   openConn_loop net_Dial m i tr = ((Some c, None), m\<lparr>conn := Some c\<rparr>, tr @ [Dial ''unix'' (addr m)])"
  by (subst openConn_loop.simps) simp

text \<open>From attempt \<open>i\<close> on, with failures up to the first success at attempt \<open>k\<close>.\<close>

lemma openConn_loop_first_success:
  "k < 3 \<Longrightarrow> i \<le> k \<Longrightarrow> net_Dial k ''unix'' (addr m) = Inr c \<Longrightarrow>
   \<forall>j. i \<le> j \<and> j < k \<longrightarrow> (\<exists>e. net_Dial j ''unix'' (addr m) = Inl e) \<Longrightarrow>
   openConn_loop net_Dial m i tr
     = ((Some c, None), m\<lparr>conn := Some c\<rparr>,
        tr @ concat (replicate (k - i) [Dial ''unix'' (addr m), Sleep Second]) @ [Dial ''unix'' (addr m)])"
proof (induction "k - i" arbitrary: i tr)
  case 0
  then have "i = k" by simp
  then show ?case using 0 by (simp add: openConn_loop_success)
next
  case (Suc n)
  then have lt: "i < k" by simp
  then obtain e where e: "net_Dial i ''unix'' (addr m) = Inl e" using Suc.prems(4) by auto
  have i3: "i < 3" using lt Suc.prems(1) by simp
  have n: "n = k - Suc i" using Suc.hyps(2) by simp
  have later: "\<forall>j. Suc i \<le> j \<and> j < k \<longrightarrow> (\<exists>e. net_Dial j ''unix'' (addr m) = Inl e)"
    using Suc.prems(4) by auto
  have "openConn_loop net_Dial m i tr
          = openConn_loop net_Dial m (Suc i) (tr @ [Dial ''unix'' (addr m), Sleep Second])"
    using i3 e by (rule openConn_loop_fail)
  also have "\<dots> = ((Some c, None), m\<lparr>conn := Some c\<rparr>,
        (tr @ [Dial ''unix'' (addr m), Sleep Second])
          @ concat (replicate (k - Suc i) [Dial ''unix'' (addr m), Sleep Second]) @ [Dial ''unix'' (addr m)])"
    using Suc.prems(1,3) lt later by (intro Suc.hyps(1) [OF n]) simp_all
  also have "k - i = Suc (k - Suc i)" using lt by simp
  then have "(tr @ [Dial ''unix'' (addr m), Sleep Second])
          @ concat (replicate (k - Suc i) [Dial ''unix'' (addr m), Sleep Second]) @ [Dial ''unix'' (addr m)]
       = tr @ concat (replicate (k - i) [Dial ''unix'' (addr m), Sleep Second]) @ [Dial ''unix'' (addr m)]"
    by simp
  finally show ?case .
qed

lemma openConn_loop_all_fail:
  "i \<le> 3 \<Longrightarrow> \<forall>j. i \<le> j \<and> j < 3 \<longrightarrow> (\<exists>e. net_Dial j ''unix'' (addr m) = Inl e) \<Longrightarrow>
   openConn_loop net_Dial m i tr
     = ((None, Some (errors_New ''failed to open connection'')), m,
        tr @ concat (replicate (3 - i) [Dial ''unix'' (addr m), Sleep Second]))"
proof (induction "3 - i" arbitrary: i tr)
  case 0
  then have "i = 3" by simp
  then show ?case by (simp add: openConn_loop_done)
next
  case (Suc n)
  then have i3: "i < 3" by simp
  then obtain e where e: "net_Dial i ''unix'' (addr m) = Inl e" using Suc.prems(2) by auto
  have n: "n = 3 - Suc i" using Suc.hyps(2) by simp
  have later: "\<forall>j. Suc i \<le> j \<and> j < 3 \<longrightarrow> (\<exists>e. net_Dial j ''unix'' (addr m) = Inl e)"
    using Suc.prems(2) by auto
  have "openConn_loop net_Dial m i tr
          = openConn_loop net_Dial m (Suc i) (tr @ [Dial ''unix'' (addr m), Sleep Second])"
    using i3 e by (rule openConn_loop_fail)
  also have "\<dots> = ((None, Some (errors_New ''failed to open connection'')), m,
        (tr @ [Dial ''unix'' (addr m), Sleep Second])
          @ concat (replicate (3 - Suc i) [Dial ''unix'' (addr m), Sleep Second]))"
    using i3 later by (intro Suc.hyps(1) [OF n]) simp_all
  also have "3 - i = Suc (3 - Suc i)" using i3 by simp
  then have "(tr @ [Dial ''unix'' (addr m), Sleep Second])
          @ concat (replicate (3 - Suc i) [Dial ''unix'' (addr m), Sleep Second])
       = tr @ concat (replicate (3 - i) [Dial ''unix'' (addr m), Sleep Second])"
    by simp
  finally show ?case .
qed

lemma filter_Dial_rounds:
  "length (filter is_Dial (concat (replicate n [Dial a b, Sleep d]))) = n"
  by (induction n) simp_all

text \<open>
  Claim C2. With no cached connection, \<open>Conn\<close> dials \<open>("unix", m.addr)\<close> at most
  three times and sleeps one second (\<open>Second\<close>, 10^9 ns) after each failed dial, hence
  between any two dials. If all three dials fail, it returns the nil connection and the
  error \<open>failed to open connection\<close>, and the machine, with no cached connection, is
  unchanged. If the dial numbered \<open>k\<close> is the first to succeed, it returns that
  connection and caches it, after \<open>k\<close> failed dials and sleeps.
\<close>

theorem Conn_bounded_retry:
  assumes "conn m = None"
  shows "((\<forall>i<3. \<exists>e. net_Dial i ''unix'' (addr m) = Inl e) \<longrightarrow>
            Conn net_Dial m
              = ((None, Some (errors_New ''failed to open connection'')), m,
                 concat (replicate 3 [Dial ''unix'' (addr m), Sleep Second])))
       \<and> (\<forall>k c. k < 3 \<and> net_Dial k ''unix'' (addr m) = Inr c
                 \<and> (\<forall>i<k. \<exists>e. net_Dial i ''unix'' (addr m) = Inl e) \<longrightarrow>
            Conn net_Dial m
              = ((Some c, None), m\<lparr>conn := Some c\<rparr>,
                 concat (replicate k [Dial ''unix'' (addr m), Sleep Second]) @ [Dial ''unix'' (addr m)]))
       \<and> length (filter is_Dial (snd (snd (Conn net_Dial m)))) \<le> 3
       \<and> Second = 1000000000"
proof -
  let ?round = "[Dial ''unix'' (addr m), Sleep Second]"
  have fail: "Conn net_Dial m
              = ((None, Some (errors_New ''failed to open connection'')), m, concat (replicate 3 ?round))"
    if "\<forall>i<3. \<exists>e. net_Dial i ''unix'' (addr m) = Inl e"
  proof -
    have "openConn_loop net_Dial m 0 []
            = ((None, Some (errors_New ''failed to open connection'')), m,
               [] @ concat (replicate (3 - 0) ?round))"
      using that by (intro openConn_loop_all_fail) simp_all
    then show ?thesis using assms by (simp add: Conn_def openConn_def)
  qed
  have succ: "Conn net_Dial m
              = ((Some c, None), m\<lparr>conn := Some c\<rparr>, concat (replicate k ?round) @ [Dial ''unix'' (addr m)])"
    if "k < 3" "net_Dial k ''unix'' (addr m) = Inr c" "\<forall>i<k. \<exists>e. net_Dial i ''unix'' (addr m) = Inl e"
    for k c
  proof -
    have "openConn_loop net_Dial m 0 []
            = ((Some c, None), m\<lparr>conn := Some c\<rparr>,
               [] @ concat (replicate (k - 0) ?round) @ [Dial ''unix'' (addr m)])"
      using that by (intro openConn_loop_first_success) simp_all
    then show ?thesis using assms by (simp add: Conn_def openConn_def)
  qed
  have count: "length (filter is_Dial (snd (snd (Conn net_Dial m)))) \<le> 3"
  proof (cases "\<forall>i<3. \<exists>e. net_Dial i ''unix'' (addr m) = Inl e")
    case True
    then show ?thesis using fail by (simp add: filter_Dial_rounds)
  next
    case False
    then have ex: "\<exists>k. k < 3 \<and> (\<exists>c. net_Dial k ''unix'' (addr m) = Inr c)"
      by (metis sum.exhaust)
    define k where "k = (LEAST k. k < 3 \<and> (\<exists>c. net_Dial k ''unix'' (addr m) = Inr c))"
    from ex have k: "k < 3 \<and> (\<exists>c. net_Dial k ''unix'' (addr m) = Inr c)"
      unfolding k_def by (rule LeastI_ex)
    then obtain c where c: "net_Dial k ''unix'' (addr m) = Inr c" by blast
    have before: "\<forall>i<k. \<exists>e. net_Dial i ''unix'' (addr m) = Inl e"
    proof (intro allI impI)
      fix i assume "i < k"
      then have "\<not> (i < 3 \<and> (\<exists>c. net_Dial i ''unix'' (addr m) = Inr c))"
        unfolding k_def by (rule not_less_Least)
      moreover have "i < 3" using \<open>i < k\<close> k by simp
      ultimately show "\<exists>e. net_Dial i ''unix'' (addr m) = Inl e" by (metis sum.exhaust)
    qed
    have "Conn net_Dial m
            = ((Some c, None), m\<lparr>conn := Some c\<rparr>, concat (replicate k ?round) @ [Dial ''unix'' (addr m)])"
      using k c before by (intro succ) simp_all
    then show ?thesis using k by (simp add: filter_Dial_rounds)
  qed
  have sec: "Second = 1000000000"
    by (simp add: Second_def Millisecond_def Microsecond_def Nanosecond_def)
  from fail succ count sec show ?thesis by blast
qed

theorem Conn_bounded_retry_witness:
  "Conn (\<lambda>i network address. Inl (errorString ''connect: no such file or directory''))
          \<lparr>ID = ''ab'', Name = ''vm'', Conf = None, Img = None, ImgPath = ''/img'',
             addr = ''/run/fog/ab.sock'', monAddr = ''/run/fog/ab_monitor.sock'', conn = None\<rparr>
     = ((None, Some (errorString ''failed to open connection'')),
        \<lparr>ID = ''ab'', Name = ''vm'', Conf = None, Img = None, ImgPath = ''/img'',
             addr = ''/run/fog/ab.sock'', monAddr = ''/run/fog/ab_monitor.sock'', conn = None\<rparr>,
        [Dial ''unix'' ''/run/fog/ab.sock'', Sleep 1000000000,
         Dial ''unix'' ''/run/fog/ab.sock'', Sleep 1000000000,
         Dial ''unix'' ''/run/fog/ab.sock'', Sleep 1000000000])
   \<and> Conn (\<lambda>i network address. if i = 1 then Inr 7 else Inl (errorString ''connect: no such file or directory''))
          \<lparr>ID = ''ab'', Name = ''vm'', Conf = None, Img = None, ImgPath = ''/img'',
             addr = ''/run/fog/ab.sock'', monAddr = ''/run/fog/ab_monitor.sock'', conn = None\<rparr>
     = ((Some 7, None),
        \<lparr>ID = ''ab'', Name = ''vm'', Conf = None, Img = None, ImgPath = ''/img'',
             addr = ''/run/fog/ab.sock'', monAddr = ''/run/fog/ab_monitor.sock'', conn = Some 7\<rparr>,
        [Dial ''unix'' ''/run/fog/ab.sock'', Sleep 1000000000, Dial ''unix'' ''/run/fog/ab.sock''])"
proof -
  let ?M = "\<lparr>ID = ''ab'', Name = ''vm'', Conf = None, Img = None, ImgPath = ''/img'',
             addr = ''/run/fog/ab.sock'', monAddr = ''/run/fog/ab_monitor.sock'', conn = None\<rparr>"
  let ?never = "\<lambda>(i::nat) (network::string) (address::string).
                  Inl (errorString ''connect: no such file or directory'') :: go_error + net_Conn"
  let ?second = "\<lambda>(i::nat) (network::string) (address::string).
                  if i = 1 then Inr 7 else Inl (errorString ''connect: no such file or directory'') :: go_error + net_Conn"
  have c: "conn ?M = None" by simp
  have sec: "Second = 1000000000"
    using Conn_bounded_retry [OF c, of ?never] by (rule conjunct2 [THEN conjunct2, THEN conjunct2])
  have allfail: "\<forall>i<3. \<exists>e. ?never i ''unix'' (addr ?M) = Inl e" by simp
  have one: "Conn ?never ?M
              = ((None, Some (errors_New ''failed to open connection'')), ?M,
                 concat (replicate 3 [Dial ''unix'' (addr ?M), Sleep Second]))"
    by (rule Conn_bounded_retry [OF c, of ?never, THEN conjunct1, THEN mp, OF allfail])
  have at1: "(1::nat) < 3 \<and> ?second 1 ''unix'' (addr ?M) = Inr 7
                 \<and> (\<forall>i<1. \<exists>e. ?second i ''unix'' (addr ?M) = Inl e)" by simp
  have two: "Conn ?second ?M
              = ((Some 7, None), ?M\<lparr>conn := Some 7\<rparr>,
                 concat (replicate 1 [Dial ''unix'' (addr ?M), Sleep Second]) @ [Dial ''unix'' (addr ?M)])"
    by (rule Conn_bounded_retry [OF c, of ?second, THEN conjunct2, THEN conjunct1, rule_format, OF at1])
  show ?thesis unfolding one two sec by (simp add: errors_New_def numeral_3_eq_3)
qed

section \<open>Errors and their causes\<close>

lemma Errorf_w_wraps: "Unwrap (Errorf_w pre cause) = Some cause \<and> Error (Errorf_w pre cause) = pre @ Error cause"
  by (simp add: Errorf_w_def)

lemma Start_sockets_error_wraps:
  assumes "Start_sockets env m = (Inl e, m')"
  shows "\<exists>pre cause. e = Errorf_w pre cause \<and> pre \<in> set Start_steps"
proof (cases "xdg_RuntimeFile env (''fog/'' @ ID m @ ''.sock'')")
  case (Inl err)
  then have e: "e = Errorf_w ''generating socket file path: '' err"
    using assms by (simp add: Start_sockets_def)
  have "''generating socket file path: '' \<in> set Start_steps" by (simp add: Start_steps_def)
  with e show ?thesis by (intro exI conjI)
next
  case a: (Inr adr)
  show ?thesis
  proof (cases "xdg_RuntimeFile env (''fog/'' @ ID m @ ''_tty.sock'')")
    case (Inl err)
    then have e: "e = Errorf_w ''generating ttysocket file path: '' err"
      using assms a by (simp add: Start_sockets_def)
    have "''generating ttysocket file path: '' \<in> set Start_steps" by (simp add: Start_steps_def)
    with e show ?thesis by (intro exI conjI)
  next
    case t: (Inr ttyAddr)
    show ?thesis
    proof (cases "xdg_RuntimeFile env (''fog/'' @ ID m @ ''_monitor.sock'')")
      case (Inl err)
      then have e: "e = Errorf_w ''generating monitor socket file path: '' err"
        using assms a t by (simp add: Start_sockets_def)
      have "''generating monitor socket file path: '' \<in> set Start_steps"
        by (simp add: Start_steps_def)
      with e show ?thesis by (intro exI conjI)
    next
      case (Inr mon)
      then have False using assms a t by (simp add: Start_sockets_def)
      then show ?thesis ..
    qed
  qed
qed

lemma Start_error_wraps:
  assumes "Start env m opts = Inr (Some e, m', cmd)"
  shows "\<exists>pre cause. e = Errorf_w pre cause \<and> pre \<in> set Start_steps
           \<and> Unwrap e = Some cause \<and> Error e = pre @ Error cause"
proof -
  have "\<exists>pre cause. e = Errorf_w pre cause \<and> pre \<in> set Start_steps"
  proof (cases "exec_LookPath env ''qemu-system-x86_64''")
    case (Inl err)
    then have e: "e = Errorf_w ''finding qemu binary: '' err" using assms by (simp add: Start_def)
    have "''finding qemu binary: '' \<in> set Start_steps" by (simp add: Start_steps_def)
    with e show ?thesis by (intro exI conjI)
  next
    case (Inr bin)
    obtain res m1 where ss: "Start_sockets env m = (res, m1)" by (cases "Start_sockets env m")
    show ?thesis
    proof (cases res)
      case (Inl err)
      then have "e = err" using assms Inr ss by (simp add: Start_def)
      then show ?thesis using Start_sockets_error_wraps ss Inl by simp
    next
      case paths: (Inr trip)
      obtain adr ttyAddr mon where trip: "trip = (adr, ttyAddr, mon)" by (cases trip)
      obtain opt where opt: "opts = Some opt"
        using assms Inr ss paths trip by (cases opts) (simp_all add: Start_def)
      obtain conf where conf: "Conf m1 = Some conf"
        using assms Inr ss paths trip opt by (cases "Conf m1") (simp_all add: Start_def)
      obtain cause where "cmd_Start env bin (Start_args m1 conf opt adr ttyAddr mon) = Some cause"
        using assms Inr ss paths trip opt conf
        by (cases "cmd_Start env bin (Start_args m1 conf opt adr ttyAddr mon)")
           (simp_all add: Start_def Let_def)
      then have e: "e = Errorf_w ''starting machine: '' cause"
        using assms Inr ss paths trip opt conf by (simp add: Start_def Let_def)
      have "''starting machine: '' \<in> set Start_steps" by (simp add: Start_steps_def)
      with e show ?thesis by (intro exI conjI)
    qed
  qed
  then obtain pre cause where "e = Errorf_w pre cause" "pre \<in> set Start_steps" by (elim exE conjE)
  then show ?thesis using Errorf_w_wraps [of pre cause] by (intro exI [of _ pre] exI [of _ cause]) simp
qed

text \<open>
  Claim C6, at the input where it fails. Every error of \<open>Start\<close> is built by
  \<open>fmt.Errorf\<close> with \<open>%w\<close> (\<open>Start_error_wraps\<close>), so it names the step and
  wraps the cause. \<open>Conn\<close>, when all three dials fail with
  \<open>connect: no such file or directory\<close>, returns an error made by \<open>errors.New\<close>:
  its message is \<open>failed to open connection\<close> and it wraps nothing, so the dial
  error is not part of what the caller gets.
\<close>

theorem Conn_terminal_error_drops_cause:
  "fst (Conn (\<lambda>i network address. Inl (errorString ''connect: no such file or directory''))
          \<lparr>ID = ''ab'', Name = ''vm'', Conf = None, Img = None, ImgPath = ''/img'',
             addr = ''/run/fog/ab.sock'', monAddr = ''/run/fog/ab_monitor.sock'', conn = None\<rparr>)
     = (None, Some (errorString ''failed to open connection''))
   \<and> Unwrap (errorString ''failed to open connection'') = None
   \<and> Error (errorString ''failed to open connection'') = ''failed to open connection''"
proof -
  let ?M = "\<lparr>ID = ''ab'', Name = ''vm'', Conf = None, Img = None, ImgPath = ''/img'',
             addr = ''/run/fog/ab.sock'', monAddr = ''/run/fog/ab_monitor.sock'', conn = None\<rparr>"
  let ?dial = "\<lambda>(i::nat) (network::string) (address::string).
                  Inl (errorString ''connect: no such file or directory'') :: go_error + net_Conn"
  have "openConn_loop ?dial ?M 0 []
          = ((None, Some (errors_New ''failed to open connection'')), ?M,
             [] @ concat (replicate (3 - 0) [Dial ''unix'' (addr ?M), Sleep Second]))"
    by (rule openConn_loop_all_fail) simp_all
  then have "fst (Conn ?dial ?M) = (None, Some (errors_New ''failed to open connection''))"
    by (simp add: Conn_def openConn_def)
  then show ?thesis by (simp add: errors_New_def)
qed

section \<open>The launch arguments\<close>

lemma Start_sockets_Conf: "Conf (snd (Start_sockets env m)) = Conf m"
  by (simp add: Start_sockets_def split: sum.splits)

lemma Start_sockets_ID: "ID (snd (Start_sockets env m)) = ID m"
  by (simp add: Start_sockets_def split: sum.splits)

lemma Start_args_net:
  "Start_args m conf opt adr ttyAddr mon ! 14 = ''-net''"
  "Start_args m conf opt adr ttyAddr mon ! 15
     = ''user'' @ (if Ports conf = [] then [] else '',hostfwd='' @ Join (Ports conf) '','')"
  by (simp_all add: Start_args_def)


lemma Start_launched:
  assumes "Start env m opts = Inr (err, m', Some (bin, args))"
  shows "\<exists>adr ttyAddr mon opt conf.
           Start_sockets env m = (Inr (adr, ttyAddr, mon), m')
         \<and> opts = Some opt \<and> Conf m = Some conf
         \<and> args = Start_args m' conf opt adr ttyAddr mon"
proof -
  obtain res m1 where ss: "Start_sockets env m = (res, m1)" by (cases "Start_sockets env m")
  have c: "Conf m1 = Conf m" using Start_sockets_Conf [of env m] ss by simp
  obtain bin0 where lp: "exec_LookPath env ''qemu-system-x86_64'' = Inr bin0"
    using assms by (cases "exec_LookPath env ''qemu-system-x86_64''") (simp_all add: Start_def)
  obtain adr ttyAddr mon where res: "res = Inr (adr, ttyAddr, mon)"
    using assms lp ss by (cases res) (auto simp: Start_def)
  obtain opt where opt: "opts = Some opt"
    using assms lp ss res by (cases opts) (simp_all add: Start_def)
  obtain conf where conf: "Conf m1 = Some conf"
    using assms lp ss res opt by (cases "Conf m1") (simp_all add: Start_def)
  have "m' = m1 \<and> args = Start_args m1 conf opt adr ttyAddr mon"
    using assms lp ss res opt conf
    by (cases "cmd_Start env bin0 (Start_args m1 conf opt adr ttyAddr mon)")
       (auto simp: Start_def Let_def)
  with ss res opt conf c show ?thesis by simp
qed

text \<open>
  Claim C4. Whenever \<open>Start\<close> gets as far as building the command, the argument at
  position 15 follows the second \<open>-net\<close> (position 14) and is the user-mode
  networking argument. With port-forward rules \<open>["tcp::2222-:22"]\<close> it is
  \<open>user,hostfwd=tcp::2222-:22\<close>, which contains \<open>hostfwd=tcp::2222-:22\<close>; with no
  rules it is exactly \<open>user\<close>, which contains no \<open>hostfwd\<close>.
\<close>

theorem Start_hostfwd_flag:
  assumes "Start env m opts = Inr (err, m', Some (bin, args))" and "Conf m = Some conf"
  shows "args ! 14 = ''-net''
       \<and> (Ports conf = [''tcp::2222-:22''] \<longrightarrow>
            args ! 15 = ''user,hostfwd=tcp::2222-:22'' \<and> Contains (args ! 15) ''hostfwd=tcp::2222-:22'')
       \<and> (Ports conf = [] \<longrightarrow> args ! 15 = ''user'' \<and> \<not> Contains (args ! 15) ''hostfwd'')"
proof -
  from Start_launched [OF assms(1)] assms(2)
  obtain adr ttyAddr mon opt where args: "args = Start_args m' conf opt adr ttyAddr mon"
    by auto
  have net: "args ! 14 = ''-net''" unfolding args by (rule Start_args_net)
  have one: "args ! 15 = ''user,hostfwd=tcp::2222-:22'' \<and> Contains (args ! 15) ''hostfwd=tcp::2222-:22''"
    if "Ports conf = [''tcp::2222-:22'']"
  proof -
    have a: "args ! 15 = ''user,hostfwd=tcp::2222-:22''"
      unfolding args Start_args_net using that by simp
    show ?thesis unfolding a by simp
  qed
  have none: "args ! 15 = ''user'' \<and> \<not> Contains (args ! 15) ''hostfwd''" if "Ports conf = []"
  proof -
    have a: "args ! 15 = ''user''" unfolding args Start_args_net using that by simp
    show ?thesis unfolding a by simp
  qed
  show ?thesis
  proof (intro conjI impI)
    show "args ! 14 = ''-net''" by (rule net)
    show "args ! 15 = ''user,hostfwd=tcp::2222-:22''" if "Ports conf = [''tcp::2222-:22'']"
      using one [OF that] by (rule conjunct1)
    show "Contains (args ! 15) ''hostfwd=tcp::2222-:22''" if "Ports conf = [''tcp::2222-:22'']"
      using one [OF that] by (rule conjunct2)
    show "args ! 15 = ''user''" if "Ports conf = []" using none [OF that] by (rule conjunct1)
    show "\<not> Contains (args ! 15) ''hostfwd''" if "Ports conf = []"
      using none [OF that] by (rule conjunct2)
  qed
qed

theorem Start_hostfwd_flag_witness:
  "(\<exists>err m' bin args.
      Start \<lparr>exec_LookPath = (\<lambda>file. Inr (''/usr/bin/'' @ file)),
          xdg_RuntimeFile = (\<lambda>rel. Inr (''/run/user/1000/'' @ rel)),
          cmd_Start = (\<lambda>bin args. None)\<rparr>
        \<lparr>ID = ''ab'', Name = ''vm'', Conf = Some \<lparr>Memory = ''1G'', Ports = [''tcp::2222-:22'']\<rparr>,
           Img = None, ImgPath = ''/img'', addr = [], monAddr = [], conn = None\<rparr>
        (Some \<lparr>imdsPort = 8080\<rparr>) = Inr (err, m', Some (bin, args))
      \<and> args ! 14 = ''-net'' \<and> args ! 15 = ''user,hostfwd=tcp::2222-:22''
      \<and> Contains (args ! 15) ''hostfwd=tcp::2222-:22'')
   \<and> (\<exists>err m' bin args.
      Start \<lparr>exec_LookPath = (\<lambda>file. Inr (''/usr/bin/'' @ file)),
          xdg_RuntimeFile = (\<lambda>rel. Inr (''/run/user/1000/'' @ rel)),
          cmd_Start = (\<lambda>bin args. None)\<rparr>
        \<lparr>ID = ''ab'', Name = ''vm'', Conf = Some \<lparr>Memory = ''1G'', Ports = []\<rparr>,
           Img = None, ImgPath = ''/img'', addr = [], monAddr = [], conn = None\<rparr>
        (Some \<lparr>imdsPort = 8080\<rparr>) = Inr (err, m', Some (bin, args))
      \<and> args ! 14 = ''-net'' \<and> args ! 15 = ''user'' \<and> \<not> Contains (args ! 15) ''hostfwd'')"
proof -
  let ?env = "\<lparr>exec_LookPath = (\<lambda>file. Inr (''/usr/bin/'' @ file)),
          xdg_RuntimeFile = (\<lambda>rel. Inr (''/run/user/1000/'' @ rel)),
          cmd_Start = (\<lambda>bin args. None)\<rparr>"
  let ?conf1 = "\<lparr>Memory = ''1G'', Ports = [''tcp::2222-:22'']\<rparr>"
  let ?conf0 = "\<lparr>Memory = ''1G'', Ports = []\<rparr>"
  let ?m1 = "\<lparr>ID = ''ab'', Name = ''vm'', Conf = Some \<lparr>Memory = ''1G'', Ports = [''tcp::2222-:22'']\<rparr>,
           Img = None, ImgPath = ''/img'', addr = [], monAddr = [], conn = None\<rparr>"
  let ?m0 = "\<lparr>ID = ''ab'', Name = ''vm'', Conf = Some \<lparr>Memory = ''1G'', Ports = []\<rparr>,
           Img = None, ImgPath = ''/img'', addr = [], monAddr = [], conn = None\<rparr>"
  obtain err1 m1' bin1 args1
    where run1: "Start ?env ?m1 (Some \<lparr>imdsPort = 8080\<rparr>) = Inr (err1, m1', Some (bin1, args1))"
    by (simp add: Start_def Start_sockets_def)
  obtain err0 m0' bin0 args0
    where run0: "Start ?env ?m0 (Some \<lparr>imdsPort = 8080\<rparr>) = Inr (err0, m0', Some (bin0, args0))"
    by (simp add: Start_def Start_sockets_def)
  have conf1: "Conf ?m1 = Some ?conf1" and conf0: "Conf ?m0 = Some ?conf0" by simp_all
  have ports1: "Ports ?conf1 = [''tcp::2222-:22'']" and ports0: "Ports ?conf0 = []" by simp_all
  note t1 = Start_hostfwd_flag [OF run1 conf1]
  note t0 = Start_hostfwd_flag [OF run0 conf0]
  have a1: "args1 ! 14 = ''-net'' \<and> args1 ! 15 = ''user,hostfwd=tcp::2222-:22''
      \<and> Contains (args1 ! 15) ''hostfwd=tcp::2222-:22''"
    using t1 [THEN conjunct1] t1 [THEN conjunct2, THEN conjunct1, THEN mp, OF ports1] by (rule conjI)
  have a0: "args0 ! 14 = ''-net'' \<and> args0 ! 15 = ''user'' \<and> \<not> Contains (args0 ! 15) ''hostfwd''"
    using t0 [THEN conjunct1] t0 [THEN conjunct2, THEN conjunct2, THEN mp, OF ports0] by (rule conjI)
  show ?thesis
  proof (rule conjI)
    from run1 a1 show "\<exists>err m' bin args.
      Start ?env ?m1 (Some \<lparr>imdsPort = 8080\<rparr>) = Inr (err, m', Some (bin, args))
      \<and> args ! 14 = ''-net'' \<and> args ! 15 = ''user,hostfwd=tcp::2222-:22''
      \<and> Contains (args ! 15) ''hostfwd=tcp::2222-:22''"
      by simp
    from run0 a0 show "\<exists>err m' bin args.
      Start ?env ?m0 (Some \<lparr>imdsPort = 8080\<rparr>) = Inr (err, m', Some (bin, args))
      \<and> args ! 14 = ''-net'' \<and> args ! 15 = ''user'' \<and> \<not> Contains (args ! 15) ''hostfwd''"
      by simp
  qed
qed





section \<open>The socket paths\<close>



lemma NewMachine_ID: "NewMachine r nm conf img imgPath = Inr m \<Longrightarrow> generateMachineID r = Inr (ID m)"
  by (auto simp: NewMachine_def split: sum.splits)






lemma generateMachineID_ones:
  "generateMachineID (replicate 32 1, io_EOF) = Inr ''0101010101010101010101010101010101010101010101010101010101010101''"
  by code_simp


section \<open>The write closure against the timer function\<close>

text \<open>
  When no \<open>Write\<close> overlaps the timer's function, the stream coalesces: two writes
  before the function runs reach the writer as one \<open>Write\<close> of both, and a write
  after the function has finished reaches it as a second \<open>Write\<close>.
\<close>

lemma schedule_within_window:
  "schedule [Call ''a'', Writer, Writer, Writer, Call ''b'', Writer, Writer, Writer,
             Fire, Timer, Timer, Timer] new_threads
      = Some \<lparr>thr_b = [], thr_t = False, thr_w = [''ab''], thr_writer = W_rest, thr_timer = F_rest,
               thr_returned = [(1, None), (1, None)]\<rparr>"
  by (simp add: new_threads_def)

lemma schedule_in_turn:
  "schedule [Call ''a'', Writer, Writer, Writer, Fire, Timer, Timer, Timer,
             Call ''b'', Writer, Writer, Writer, Fire, Timer, Timer, Timer] new_threads
      = Some \<lparr>thr_b = [], thr_t = False, thr_w = [''a'', ''b''], thr_writer = W_rest, thr_timer = F_rest,
               thr_returned = [(1, None), (1, None)]\<rparr>"
  by (simp add: new_threads_def)

text \<open>
  Claim C1, at the schedules where it fails. First schedule: \<open>Write("b")\<close> is called
  inside the window, before the timer goes off, but appends only after the timer's
  function has written the buffer out and before it resets the buffer; the one flush is
  \<open>"a"\<close>, not \<open>"ab"\<close>, and \<open>"b"\<close> is never flushed. Second schedule:
  \<open>Write("b")\<close> is called after the flush of \<open>"a"\<close> has reached the writer; it
  appends before the reset and tests \<open>t\<close> after \<open>t = nil\<close>, so it sets a new timer
  on a buffer that no longer holds \<open>"b"\<close>, and the later flush is empty: the writer
  receives \<open>"a"\<close> and then the empty slice, not \<open>"a"\<close> and then \<open>"b"\<close>. In
  both, each \<open>Write\<close> has returned \<open>(1, nil)\<close>.
\<close>

theorem coalesced_write_lost:
  "schedule [Call ''a'', Writer, Writer, Writer, Call ''b'', Fire, Timer, Writer,
             Timer, Writer, Writer, Timer] new_threads
      = Some \<lparr>thr_b = [], thr_t = False, thr_w = [''a''], thr_writer = W_rest, thr_timer = F_rest,
               thr_returned = [(1, None), (1, None)]\<rparr>
   \<and> schedule [Call ''a'', Writer, Writer, Writer, Fire, Timer, Call ''b'', Writer,
               Timer, Timer, Writer, Writer, Fire, Timer, Timer, Timer] new_threads
      = Some \<lparr>thr_b = [], thr_t = False, thr_w = [''a'', []], thr_writer = W_rest, thr_timer = F_rest,
               thr_returned = [(1, None), (1, None)]\<rparr>"
  by (simp add: new_threads_def)

text \<open>
  Claim C7, at the schedule where it fails. After \<open>Write("a")\<close> has returned, the
  timer's function starts and writes \<open>"a"\<close> out; \<open>Write("b")\<close> is called and appends
  to the buffer before the function resets it. At that point both threads are between
  their first and last access to the buffer and the timer handle, and nothing keeps them
  apart. Run to the end, both \<open>Write\<close> calls have returned \<open>(1, nil)\<close>, the buffer
  is empty, no timer is set, and the writer has received \<open>"a"\<close> only.
\<close>

theorem write_lost_between_flush_and_reset:
  "(\<exists>c. schedule [Call ''a'', Writer, Writer, Writer, Fire, Timer, Call ''b'', Writer] new_threads = Some c
        \<and> both_inside c)
   \<and> schedule [Call ''a'', Writer, Writer, Writer, Fire, Timer, Call ''b'', Writer,
                Timer, Writer, Writer, Timer] new_threads
      = Some \<lparr>thr_b = [], thr_t = False, thr_w = [''a''], thr_writer = W_rest, thr_timer = F_rest,
               thr_returned = [(1, None), (1, None)]\<rparr>"
  by (simp add: new_threads_def both_inside_def)

end
